theory Spec2Isabelle
  imports Main "HOL-Library.Multiset"
begin

section \<open>The voice session of the frontend\<close>

text \<open>
  The frontend keeps one Vapi client in a zustand store (\<^verbatim>\<open>stores/vapiStore.ts\<close>) and two
  React state cells, \<^verbatim>\<open>isConnected\<close> and \<^verbatim>\<open>isRecording\<close>, in the hook
  \<^verbatim>\<open>useVoiceSession\<close>. The model is one record holding the store field, the two cells and
  two traces: the calls made on the Vapi SDK and the lines written to the console. Each
  operation of the source is a function from this record to the updated record.
\<close>

text \<open>
  \<^verbatim>\<open>import.meta.env\<close>: the two build-time values the code reads. \<open>None\<close> is \<^verbatim>\<open>undefined\<close>.
\<close>

record env =
  VITE_VAPI_PUBLIC_KEY :: "string option"
  VITE_VAPI_ASSISTANT_ID :: "string option"

text \<open>
  JavaScript's \<^verbatim>\<open>!value\<close> on a value that is a string or \<^verbatim>\<open>undefined\<close>: true for
  \<^verbatim>\<open>undefined\<close> and for the empty string.
\<close>

fun falsy :: "string option \<Rightarrow> bool" where
  "falsy None = True"
| "falsy (Some v) = (v = [])"

text \<open>A Vapi client, identified by the public key it was constructed with.\<close>

datatype vapi_instance = Vapi string

text \<open>The calls the code makes on the SDK, in the order they are made.\<close>

datatype sdk_call =
    VapiNew string
  | VapiOn string
  | VapiStart string
  | VapiStop

text \<open>
  What a call into the SDK does, as the \<^verbatim>\<open>try\<close>/\<^verbatim>\<open>catch\<close> of the source sees it: it returns
  (for \<^verbatim>\<open>start\<close>, the awaited promise resolves), or it throws an error with a message.
\<close>

datatype sdk_result = Returns | Throws string

record session =
  vapi :: "vapi_instance option"
  isConnected :: bool
  isRecording :: bool
  sdk_calls :: "sdk_call list"
  console :: "string list"

text \<open>
  The state at mount: the store's \<^verbatim>\<open>vapi: null\<close> and the two \<^verbatim>\<open>useState(false)\<close> cells.
\<close>

definition initial_session :: session where
  "initial_session =
     \<lparr>vapi = None, isConnected = False, isRecording = False, sdk_calls = [], console = []\<rparr>"

text \<open>
  \<^verbatim>\<open>initializeVapi\<close> of \<^verbatim>\<open>vapiStore.ts\<close>: without a public key it logs and returns; otherwise
  it constructs the client, registers the three listeners and stores the client.
\<close>

definition initializeVapi :: "env \<Rightarrow> session \<Rightarrow> session" where
  "initializeVapi e s =
     (if falsy (VITE_VAPI_PUBLIC_KEY e)
      then s\<lparr>console := console s @ [''VAPI public key not found'']\<rparr>
      else
        (let publicKey = the (VITE_VAPI_PUBLIC_KEY e) in
         s\<lparr>vapi := Some (Vapi publicKey),
           sdk_calls := sdk_calls s @
             [VapiNew publicKey, VapiOn ''call-start'', VapiOn ''call-end'', VapiOn ''message'']\<rparr>))"

text \<open>
  The three listeners registered by \<^verbatim>\<open>initializeVapi\<close> only write to the console.
\<close>

definition vapiEvent :: "string \<Rightarrow> session \<Rightarrow> session" where
  "vapiEvent name s =
     (if name = ''call-start'' then s\<lparr>console := console s @ [''Call started'']\<rparr>
      else if name = ''call-end'' then s\<lparr>console := console s @ [''Call ended'']\<rparr>
      else if name = ''message'' then s\<lparr>console := console s @ [''VAPI message:'']\<rparr>
      else s)"

text \<open>
  \<^verbatim>\<open>startRecording\<close> of the hook \<^verbatim>\<open>useVoiceSession\<close> (the version that reads the assistant
  id from the environment). The argument \<open>r\<close> is what \<^verbatim>\<open>await vapi.start(assistantId)\<close> does.
\<close>

definition startRecording :: "env \<Rightarrow> sdk_result \<Rightarrow> session \<Rightarrow> session" where
  "startRecording e r s =
     (case vapi s of
        None \<Rightarrow> s
      | Some v \<Rightarrow>
          if falsy (VITE_VAPI_ASSISTANT_ID e)
          then s\<lparr>console := console s @ [''VAPI Assistant ID not found'']\<rparr>
          else
            (let assistantId = the (VITE_VAPI_ASSISTANT_ID e) in
             case r of
               Returns \<Rightarrow>
                 s\<lparr>sdk_calls := sdk_calls s @ [VapiStart assistantId],
                   isRecording := True, isConnected := True\<rparr>
             | Throws err \<Rightarrow>
                 s\<lparr>sdk_calls := sdk_calls s @ [VapiStart assistantId],
                   console := console s @ [''Failed to start recording:'' @ err]\<rparr>))"

text \<open>
  The earlier version of \<^verbatim>\<open>startRecording\<close>, with the assistant id written in the code.
\<close>

definition startRecording_fixed_id :: "sdk_result \<Rightarrow> session \<Rightarrow> session" where
  "startRecording_fixed_id r s =
     (case vapi s of
        None \<Rightarrow> s
      | Some v \<Rightarrow>
          (let assistantId = ''your_assistant_id'' in
           case r of
             Returns \<Rightarrow>
               s\<lparr>sdk_calls := sdk_calls s @ [VapiStart assistantId],
                 isRecording := True, isConnected := True\<rparr>
           | Throws err \<Rightarrow>
               s\<lparr>sdk_calls := sdk_calls s @ [VapiStart assistantId],
                 console := console s @ [''Failed to start recording:'' @ err]\<rparr>))"

text \<open>
  \<^verbatim>\<open>stopRecording\<close>, the same in both versions of the hook. The argument \<open>r\<close> is what
  \<^verbatim>\<open>vapi.stop()\<close> does.
\<close>

definition stopRecording :: "sdk_result \<Rightarrow> session \<Rightarrow> session" where
  "stopRecording r s =
     (case vapi s of
        None \<Rightarrow> s
      | Some v \<Rightarrow>
          (case r of
             Returns \<Rightarrow> s\<lparr>sdk_calls := sdk_calls s @ [VapiStop], isRecording := False\<rparr>
           | Throws err \<Rightarrow>
               s\<lparr>sdk_calls := sdk_calls s @ [VapiStop],
                 console := console s @ [''Failed to stop recording:'' @ err]\<rparr>))"

text \<open>
  Everything that can happen to a mounted hook: the effect that calls \<^verbatim>\<open>initializeVapi\<close>,
  a click that starts or stops (with what the SDK does on that call), and an SDK event
  delivered to a listener. Each operation is taken as a whole, from the call to the last
  assignment it makes after its \<^verbatim>\<open>await\<close>; the client an operation sees is the one in the
  store when it is called.
\<close>

datatype session_op =
    Initialize
  | Start sdk_result
  | StartFixedId sdk_result
  | Stop sdk_result
  | Event string

fun session_step :: "env \<Rightarrow> session \<Rightarrow> session_op \<Rightarrow> session" where
  "session_step e s Initialize = initializeVapi e s"
| "session_step e s (Start r) = startRecording e r s"
| "session_step e s (StartFixedId r) = startRecording_fixed_id r s"
| "session_step e s (Stop r) = stopRecording r s"
| "session_step e s (Event name) = vapiEvent name s"

definition run_session :: "env \<Rightarrow> session \<Rightarrow> session_op list \<Rightarrow> session" where
  "run_session e s ops = foldl (session_step e) s ops"

section \<open>The tool-call dispatch engine\<close>

text \<open>
  The backend engine that the specification describes (action registry, correlation
  tracker, dispatch orchestrator, calendar handlers) is not among the source files: of
  the backend only \<^verbatim>\<open>requirements.txt\<close> is, and the project notes call the webhook routers
  stubs. Every definition of this section is therefore modelled from the specification,
  and says so. The external collaborators (credential provider, calendar backend, the
  time a handler takes) are the fields of the record \<open>world\<close>; time is counted in ticks
  from the moment of dispatch. A handler is a parameter of the model: the specification
  does not give the argument schema or the rendering of any calendar action.
\<close>

subsection \<open>Data model\<close>

text \<open>
  Modelled from the spec: the values of a tool call's arguments (section 3, a structured
  key/value mapping). Only text and points in time (minutes since the epoch) occur in the
  calendar operations.
\<close>

datatype arg_value = Text string | Time int

type_synonym arguments = "(string \<times> arg_value) list"

text \<open>
  Modelled from the spec: ToolCallRequest (section 3): identifier, function name,
  arguments.
\<close>

record ToolCallRequest =
  call_identifier :: string
  function_name :: string
  arguments :: arguments

text \<open>
  Modelled from the spec: the kinds of failure of the calendar backend (sections 4.5, 6)
  and the error taxonomy of section 7.
\<close>

datatype downstream_kind = AuthExpired | RateLimited | EventNotFound | Conflict

datatype error_code =
    MalformedRequest
  | UnknownFunction
  | InvalidArguments
  | CredentialUnavailable
  | DownstreamFailure downstream_kind
  | Timeout

text \<open>
  Modelled from the spec: a calendar event as the backend lists it; \<open>starts\<close> and \<open>ends\<close>
  are minutes since the epoch.
\<close>

record calendar_event =
  event_id :: string
  title :: string
  starts :: int
  ends :: int

text \<open>
  Modelled from the spec: ToolCallOutcome (section 3): the identifier of the originating
  request, a status, and a payload that on success is a result string with optional
  structured data and on failure an error code with a message.
\<close>

datatype status = Succeeded | Failed | TimedOut

datatype payload =
    Success string "calendar_event list option"
  | Failure error_code string

record ToolCallOutcome =
  outcome_identifier :: string
  outcome_status :: status
  outcome_payload :: payload

text \<open>
  Modelled from the spec: WebhookBatch (section 3): the ordered tool calls of one turn
  and the session identifier.
\<close>

record WebhookBatch =
  calls :: "ToolCallRequest list"
  session_id :: string

subsection \<open>External collaborators\<close>

text \<open>
  Modelled from the spec: the answers of the credential provider (section 6):
  \<^verbatim>\<open>getCredential(sessionId) -> Credential | Expired | NotFound\<close> and
  \<^verbatim>\<open>refresh(sessionId) -> Credential | Failed\<close>.
\<close>

type_synonym credential = string

datatype credential_lookup = Credential credential | Expired | NotFound

datatype refresh_result = Refreshed credential | RefreshFailed

text \<open>
  Modelled from the spec: the requests a handler can send to the calendar backend
  (section 6), and the calls made on the credential provider; both are recorded in traces.
\<close>

datatype backend_request =
    ListEvents credential int int
  | CreateEvent credential string int int
  | UpdateEvent credential string int int
  | DeleteEvent credential string

datatype provider_call = GetCredential string | Refresh string

text \<open>
  Modelled from the spec: everything outside the engine (section 6). The credential
  provider is asked by session identifier; each of the four backend operations answers
  with a failure kind or its result; \<open>completes_after\<close> is the number of ticks after which
  the handler of a call resolves, \<open>None\<close> when it never does.
\<close>

record world =
  getCredential :: "string \<Rightarrow> credential_lookup"
  refresh :: "string \<Rightarrow> refresh_result"
  list_events :: "credential \<Rightarrow> int \<Rightarrow> int \<Rightarrow> downstream_kind + calendar_event list"
  create_event :: "credential \<Rightarrow> string \<Rightarrow> int \<Rightarrow> int \<Rightarrow> downstream_kind + string"
  update_event :: "credential \<Rightarrow> string \<Rightarrow> int \<Rightarrow> int \<Rightarrow> downstream_kind + unit"
  delete_event :: "credential \<Rightarrow> string \<Rightarrow> downstream_kind + unit"
  completes_after :: "ToolCallRequest \<Rightarrow> nat option"

subsection \<open>Action registry and handlers\<close>

text \<open>
  Modelled from the spec: what a handler returns (section 2, a domain result or a typed
  failure).
\<close>

datatype handler_result =
    Done string "calendar_event list option"
  | Error error_code string

text \<open>
  Modelled from the spec: a registered handler (section 4.2): an argument validator, which
  returns a descriptive error for arguments it rejects, and an execution function, which
  given the session, a credential and the arguments returns the backend requests it
  issued and its result.
\<close>

record handler =
  validate :: "arguments \<Rightarrow> string option"
  execute :: "world \<Rightarrow> string \<Rightarrow> credential \<Rightarrow> arguments \<Rightarrow> backend_request list \<times> handler_result"

text \<open>
  Modelled from the spec: the action registry (section 4.2),
  \<^verbatim>\<open>resolve(functionName) -> Handler | NotFound\<close>, a static mapping from names to handlers.
\<close>

type_synonym registry = "string \<Rightarrow> handler option"

text \<open>
  Modelled from the spec: the message of a downstream failure, phrased for speech
  (section 7).
\<close>

fun downstream_message :: "downstream_kind \<Rightarrow> string" where
  "downstream_message AuthExpired = ''I could not sign in to your calendar''"
| "downstream_message RateLimited = ''I could not reach your calendar right now''"
| "downstream_message EventNotFound = ''I could not find that event''"
| "downstream_message Conflict = ''That change conflicts with your calendar''"

subsection \<open>Correlation tracker\<close>

text \<open>
  Modelled from the spec: the lifecycle of one call (section 4.3): Pending with its
  deadline, or terminal with the outcome that was recorded (Succeeded, Failed or
  TimedOut).
\<close>

datatype call_state = Pending nat | Terminal ToolCallOutcome

text \<open>
  Modelled from the spec: the correlation tracker (section 4.3): the state of every
  tracked identifier, and the log of rejected operations (invariant violations).
\<close>

record tracker =
  states :: "string \<Rightarrow> call_state option"
  violations :: "string list"

text \<open>Modelled from the spec: the tracker of a new batch tracks nothing (section 9).\<close>

definition empty_tracker :: tracker where
  "empty_tracker = \<lparr>states = (\<lambda>i. None), violations = []\<rparr>"

text \<open>
  Modelled from the spec: on dispatch a call is registered as Pending with a deadline
  (section 4.3). An identifier that is already tracked does not enter the map again
  (section 5); the attempt is logged.
\<close>

definition register :: "tracker \<Rightarrow> string \<Rightarrow> nat \<Rightarrow> tracker" where
  "register tr i deadline =
     (case states tr i of
        None \<Rightarrow> tr\<lparr>states := (states tr)(i \<mapsto> Pending deadline)\<rparr>
      | Some st \<Rightarrow> tr\<lparr>violations := violations tr @ [i]\<rparr>)"

text \<open>
  Modelled from the spec: a terminal transition (section 4.3). It is recorded only for an
  identifier that is Pending; any other attempt is rejected and logged as an invariant
  violation, and the state is left as it is.
\<close>

definition transition :: "tracker \<Rightarrow> string \<Rightarrow> status \<Rightarrow> payload \<Rightarrow> tracker" where
  "transition tr i st p =
     (case states tr i of
        Some (Pending deadline) \<Rightarrow>
          tr\<lparr>states := (states tr)(i \<mapsto>
               Terminal \<lparr>outcome_identifier = i, outcome_status = st, outcome_payload = p\<rparr>)\<rparr>
      | _ \<Rightarrow> tr\<lparr>violations := violations tr @ [i]\<rparr>)"

text \<open>
  Modelled from the spec: the two things that can happen to a dispatched call (section
  4.3): its sub-task resolves with a result, or its deadline elapses.
\<close>

datatype event = Resolved string handler_result | DeadlineElapsed string

text \<open>Modelled from the spec: the identifier an event is about.\<close>

fun event_identifier :: "event \<Rightarrow> string" where
  "event_identifier (Resolved i r) = i"
| "event_identifier (DeadlineElapsed i) = i"

text \<open>
  Modelled from the spec: a result that arrives becomes Succeeded or Failed, an elapsed
  deadline becomes TimedOut with the error code Timeout (sections 4.3, 7).
\<close>

fun apply_event :: "tracker \<Rightarrow> event \<Rightarrow> tracker" where
  "apply_event tr (Resolved i (Done text data)) = transition tr i Succeeded (Success text data)"
| "apply_event tr (Resolved i (Error code message)) = transition tr i Failed (Failure code message)"
| "apply_event tr (DeadlineElapsed i) =
     transition tr i TimedOut (Failure Timeout ''That took too long, please try again'')"

text \<open>
  Modelled from the spec: everything the tracker can be asked to do, for stating what no
  sequence of operations can undo.
\<close>

datatype tracker_op = Register string nat | Deliver event

fun tracker_step :: "tracker \<Rightarrow> tracker_op \<Rightarrow> tracker" where
  "tracker_step tr (Register i deadline) = register tr i deadline"
| "tracker_step tr (Deliver e) = apply_event tr e"

subsection \<open>Dispatch orchestrator\<close>

text \<open>
  Modelled from the spec: resolving the session's credential (sections 4.4, 6, 7): one
  \<^verbatim>\<open>getCredential\<close>; when the credential is expired or not found, one \<^verbatim>\<open>refresh\<close>; when
  that fails too, no credential is available. The calls made are returned with the result.
\<close>

definition resolve_credential :: "world \<Rightarrow> string \<Rightarrow> provider_call list \<times> credential option" where
  "resolve_credential w sid =
     (case getCredential w sid of
        Credential k \<Rightarrow> ([GetCredential sid], Some k)
      | _ \<Rightarrow>
          (case refresh w sid of
             Refreshed k \<Rightarrow> ([GetCredential sid, Refresh sid], Some k)
           | RefreshFailed \<Rightarrow> ([GetCredential sid, Refresh sid], None)))"

text \<open>
  Modelled from the spec: what the orchestrator does with one call (sections 4.2, 4.4,
  7): an unknown function name, arguments that fail validation, or no available
  credential resolve the call at once with a failure, without invoking a handler;
  otherwise the handler is invoked with the batch's credential. The specification does
  not say which error is reported for a call that fails more than one of these checks;
  the model makes them in the order registry, validator, credential.
\<close>

datatype plan = Immediate handler_result | Invoke handler credential

definition plan_call :: "registry \<Rightarrow> credential option \<Rightarrow> ToolCallRequest \<Rightarrow> plan" where
  "plan_call reg cred c =
     (case reg (function_name c) of
        None \<Rightarrow> Immediate (Error UnknownFunction ''I do not know how to do that'')
      | Some h \<Rightarrow>
          (case validate h (arguments c) of
             Some message \<Rightarrow> Immediate (Error InvalidArguments message)
           | None \<Rightarrow>
               (case cred of
                  None \<Rightarrow>
                    Immediate (Error CredentialUnavailable ''I could not access your calendar account'')
                | Some k \<Rightarrow> Invoke h k)))"

text \<open>Modelled from the spec: whether the handler body of a call is executed.\<close>

definition invokes :: "registry \<Rightarrow> credential option \<Rightarrow> ToolCallRequest \<Rightarrow> bool" where
  "invokes reg cred c = (case plan_call reg cred c of Invoke h k \<Rightarrow> True | Immediate r \<Rightarrow> False)"

text \<open>
  Modelled from the spec: dispatching one call (section 4.3): it is registered as Pending
  with the deadline, and a call that resolves at once makes its transition at once.
\<close>

definition admit :: "nat \<Rightarrow> registry \<Rightarrow> credential option \<Rightarrow> tracker \<Rightarrow> ToolCallRequest \<Rightarrow> tracker" where
  "admit timeout reg cred tr c =
     (let tr' = register tr (call_identifier c) timeout
      in case plan_call reg cred c of
           Immediate r \<Rightarrow> apply_event tr' (Resolved (call_identifier c) r)
         | Invoke h k \<Rightarrow> tr')"

text \<open>
  Modelled from the spec: the backend requests issued for one call: those of its handler,
  when the handler is invoked.
\<close>

definition requests_of :: "registry \<Rightarrow> world \<Rightarrow> string \<Rightarrow> credential option \<Rightarrow> ToolCallRequest \<Rightarrow> backend_request list" where
  "requests_of reg w sid cred c =
     (case plan_call reg cred c of
        Immediate r \<Rightarrow> []
      | Invoke h k \<Rightarrow> fst (execute h w sid k (arguments c)))"

text \<open>
  Modelled from the spec: the timed events of one call (sections 4.3, 5): its deadline
  always elapses, at the timeout; an invoked handler resolves with its result after the
  time the world gives it, or never.
\<close>

definition call_events :: "nat \<Rightarrow> registry \<Rightarrow> world \<Rightarrow> string \<Rightarrow> credential option \<Rightarrow> ToolCallRequest \<Rightarrow> (nat \<times> event) list" where
  "call_events timeout reg w sid cred c =
     (timeout, DeadlineElapsed (call_identifier c)) #
     (case plan_call reg cred c of
        Immediate r \<Rightarrow> []
      | Invoke h k \<Rightarrow>
          (case completes_after w c of
             None \<Rightarrow> []
           | Some t \<Rightarrow> [(t, Resolved (call_identifier c) (snd (execute h w sid k (arguments c))))]))"

text \<open>
  Modelled from the spec: the events of a batch in the order of their times. The sort is
  stable and each call lists its deadline first, so a handler wins only when it resolves
  strictly before the deadline.
\<close>

definition schedule :: "(nat \<times> event) list \<Rightarrow> event list" where
  "schedule timed = map snd (sort_key fst timed)"

text \<open>
  Modelled from the spec: the outcome read from the tracker for one call, once its state
  is terminal.
\<close>

definition recorded_outcome :: "tracker \<Rightarrow> ToolCallRequest \<Rightarrow> ToolCallOutcome option" where
  "recorded_outcome tr c =
     (case states tr (call_identifier c) of
        Some (Terminal out) \<Rightarrow> Some out
      | _ \<Rightarrow> None)"

text \<open>
  Modelled from the spec: what dispatching a batch produces: the aggregated outcomes, and
  the traces of the calls on the credential provider, of the requests whose handler body
  ran, of the backend requests issued and of the tracker's invariant violations.
\<close>

record dispatch_result =
  outcomes :: "ToolCallOutcome list"
  provider_calls :: "provider_call list"
  handler_invocations :: "ToolCallRequest list"
  backend_requests :: "backend_request list"
  invariant_violations :: "string list"

text \<open>
  Modelled from the spec: the dispatch orchestrator (sections 4.4, 5): the credential is
  resolved once for the batch; every call is registered and fanned out; all events, up to
  the last deadline and any late results, are delivered to the tracker in the order of
  their times; the response holds the terminal outcome of each call of the batch.
\<close>

definition dispatch :: "nat \<Rightarrow> registry \<Rightarrow> world \<Rightarrow> WebhookBatch \<Rightarrow> dispatch_result" where
  "dispatch timeout reg w b =
     (let (asked, cred) = resolve_credential w (session_id b);
          tr0 = foldl (admit timeout reg cred) empty_tracker (calls b);
          evs = schedule (concat (map (call_events timeout reg w (session_id b) cred) (calls b)));
          tr1 = foldl apply_event tr0 evs
      in \<lparr>outcomes = List.map_filter (recorded_outcome tr1) (calls b),
          provider_calls = asked,
          handler_invocations = filter (invokes reg cred) (calls b),
          backend_requests = concat (map (requests_of reg w (session_id b) cred) (calls b)),
          invariant_violations = violations tr1\<rparr>)"

subsection \<open>One call on its own\<close>

text \<open>
  The definitions of this subsection are not part of the engine: they say, for one
  identifier or one call taken alone, what the engine is then proved to do for it inside
  a batch.
\<close>

text \<open>
  Modelled from the spec: the outcome an event records when its transition is accepted
  (sections 4.3, 7).
\<close>

fun outcome_of_event :: "event \<Rightarrow> ToolCallOutcome" where
  "outcome_of_event (Resolved i (Done text data)) =
     \<lparr>outcome_identifier = i, outcome_status = Succeeded, outcome_payload = Success text data\<rparr>"
| "outcome_of_event (Resolved i (Error code message)) =
     \<lparr>outcome_identifier = i, outcome_status = Failed, outcome_payload = Failure code message\<rparr>"
| "outcome_of_event (DeadlineElapsed i) =
     \<lparr>outcome_identifier = i, outcome_status = TimedOut,
      outcome_payload = Failure Timeout ''That took too long, please try again''\<rparr>"

text \<open>
  Modelled from the spec: the state of one identifier after an event for it (section
  4.3): only a Pending state changes.
\<close>

fun settle :: "call_state option \<Rightarrow> event \<Rightarrow> call_state option" where
  "settle (Some (Pending deadline)) e = Some (Terminal (outcome_of_event e))"
| "settle s e = s"

text \<open>
  Modelled from the spec: the state of one identifier after a call with that identifier
  has been dispatched (section 4.3).
\<close>

definition admitted :: "nat \<Rightarrow> registry \<Rightarrow> credential option \<Rightarrow> call_state option \<Rightarrow> ToolCallRequest \<Rightarrow> call_state option" where
  "admitted timeout reg cred s c =
     (let s' = (case s of None \<Rightarrow> Some (Pending timeout) | Some st \<Rightarrow> Some st)
      in case plan_call reg cred c of
           Immediate r \<Rightarrow> settle s' (Resolved (call_identifier c) r)
         | Invoke h k \<Rightarrow> s')"

text \<open>
  Modelled from the spec: the outcome of one call, in the words of sections 4.3 and 4.4:
  a call that cannot be executed fails at once with its error; an executed call has its
  handler's result when the handler resolves before the deadline, and is TimedOut
  otherwise.
\<close>

definition call_outcome :: "nat \<Rightarrow> registry \<Rightarrow> world \<Rightarrow> string \<Rightarrow> credential option \<Rightarrow> ToolCallRequest \<Rightarrow> ToolCallOutcome" where
  "call_outcome timeout reg w sid cred c =
     (case plan_call reg cred c of
        Immediate r \<Rightarrow> outcome_of_event (Resolved (call_identifier c) r)
      | Invoke h k \<Rightarrow>
          (case completes_after w c of
             None \<Rightarrow> outcome_of_event (DeadlineElapsed (call_identifier c))
           | Some t \<Rightarrow>
               if t < timeout
               then outcome_of_event (Resolved (call_identifier c) (snd (execute h w sid k (arguments c))))
               else outcome_of_event (DeadlineElapsed (call_identifier c))))"

text \<open>
  Modelled from the spec: the outcome of a response that carries a given identifier, if
  there is one.
\<close>

definition outcome_for :: "dispatch_result \<Rightarrow> string \<Rightarrow> ToolCallOutcome option" where
  "outcome_for r i = find (\<lambda>out. outcome_identifier out = i) (outcomes r)"

text \<open>
  Modelled from the spec: the invariant of a tracked identifier (section 3): it has a
  state, and a recorded outcome carries the identifier it is recorded under.
\<close>

definition state_ok :: "string \<Rightarrow> call_state option \<Rightarrow> bool" where
  "state_ok i s = (case s of None \<Rightarrow> False | Some (Pending d) \<Rightarrow> True
                   | Some (Terminal out) \<Rightarrow> outcome_identifier out = i)"

subsection \<open>An example world and batch\<close>

text \<open>
  A registry, a world and a batch on which the theorems below are instantiated. The one
  registered handler deletes an event by identifier; the session \<^verbatim>\<open>alice\<close> has a
  credential, every other session has none and its refresh fails; the call \<^verbatim>\<open>slow\<close>
  resolves after 9 ticks, every other call after 2. The batch holds two deletions, a call
  to a function that is not registered and a deletion without its event identifier.
\<close>

definition delete_handler :: handler where
  "delete_handler =
     \<lparr>validate = (\<lambda>args.
        case map_of args ''eventId'' of
          Some (Text i) \<Rightarrow> None
        | _ \<Rightarrow> Some ''An event identifier is required''),
      execute = (\<lambda>w sid k args.
        let i = (case map_of args ''eventId'' of Some (Text t) \<Rightarrow> t | _ \<Rightarrow> [])
        in ([DeleteEvent k i],
            case delete_event w k i of
              Inl f \<Rightarrow> Error (DownstreamFailure f) (downstream_message f)
            | Inr u \<Rightarrow> Done ''I deleted the event'' None))\<rparr>"

definition example_registry :: registry where
  "example_registry name = (if name = ''deleteEvent'' then Some delete_handler else None)"

definition example_world :: world where
  "example_world =
     \<lparr>getCredential = (\<lambda>sid. if sid = ''alice'' then Credential ''token'' else Expired),
      refresh = (\<lambda>sid. RefreshFailed),
      list_events = (\<lambda>k lo hi. Inr []),
      create_event = (\<lambda>k t s e. Inr ''created''),
      update_event = (\<lambda>k i s e. Inl Conflict),
      delete_event = (\<lambda>k i. if i = ''e1'' then Inr () else Inl EventNotFound),
      completes_after = (\<lambda>c. if call_identifier c = ''slow'' then Some 9 else Some 2)\<rparr>"

definition quick_delete :: ToolCallRequest where
  "quick_delete =
     \<lparr>call_identifier = ''call-1'', function_name = ''deleteEvent'',
      arguments = [(''eventId'', Text ''e1'')]\<rparr>"

definition unknown_call :: ToolCallRequest where
  "unknown_call =
     \<lparr>call_identifier = ''call-2'', function_name = ''orderPizza'', arguments = []\<rparr>"

definition delete_without_id :: ToolCallRequest where
  "delete_without_id =
     \<lparr>call_identifier = ''call-3'', function_name = ''deleteEvent'', arguments = []\<rparr>"

definition slow_delete :: ToolCallRequest where
  "slow_delete =
     \<lparr>call_identifier = ''slow'', function_name = ''deleteEvent'',
      arguments = [(''eventId'', Text ''e2'')]\<rparr>"

definition example_batch :: WebhookBatch where
  "example_batch =
     \<lparr>calls = [quick_delete, unknown_call, delete_without_id, slow_delete],
      session_id = ''alice''\<rparr>"

section \<open>Properties of the voice session\<close>

lemma session_step_keeps_connected:
  "isConnected s \<Longrightarrow> isConnected (session_step e s x)"
  by (cases x)
     (auto simp: initializeVapi_def startRecording_def startRecording_fixed_id_def
        stopRecording_def vapiEvent_def Let_def split: option.splits sdk_result.splits)

lemma run_session_keeps_connected:
  "isConnected s \<Longrightarrow> isConnected (run_session e s ops)"
  unfolding run_session_def
  by (induction ops arbitrary: s) (simp_all add: session_step_keeps_connected)

lemma session_step_without_key:
  assumes "falsy (VITE_VAPI_PUBLIC_KEY e)" and "vapi s = None"
  shows "vapi (session_step e s x) = None
       \<and> sdk_calls (session_step e s x) = sdk_calls s
       \<and> isConnected (session_step e s x) = isConnected s
       \<and> isRecording (session_step e s x) = isRecording s"
  using assms
  by (cases x)
     (simp_all add: initializeVapi_def startRecording_def startRecording_fixed_id_def
        stopRecording_def vapiEvent_def)

lemma run_session_without_key:
  assumes "falsy (VITE_VAPI_PUBLIC_KEY e)" and "vapi s = None"
  shows "vapi (run_session e s ops) = None
       \<and> sdk_calls (run_session e s ops) = sdk_calls s
       \<and> isConnected (run_session e s ops) = isConnected s
       \<and> isRecording (run_session e s ops) = isRecording s"
  using assms unfolding run_session_def
proof (induction ops arbitrary: s)
  case Nil
  then show ?case by simp
next
  case (Cons x ops)
  have step: "vapi (session_step e s x) = None
       \<and> sdk_calls (session_step e s x) = sdk_calls s
       \<and> isConnected (session_step e s x) = isConnected s
       \<and> isRecording (session_step e s x) = isRecording s"
    using session_step_without_key [OF Cons.prems] .
  from Cons.IH [OF Cons.prems(1), of "session_step e s x"] step
  show ?case by simp
qed

text \<open>
  C8. With no Vapi client in the store (\<^verbatim>\<open>vapi\<close> is null), \<^verbatim>\<open>startRecording\<close> (in both
  versions of the hook) and \<^verbatim>\<open>stopRecording\<close> return at once: the whole state is
  unchanged, so neither \<^verbatim>\<open>isRecording\<close> nor \<^verbatim>\<open>isConnected\<close> changes, no SDK call is made and
  nothing is logged, whatever the SDK would have done.
\<close>

theorem null_client_start_stop_unchanged:
  assumes "vapi s = None"
  shows "startRecording e r s = s
       \<and> startRecording_fixed_id r s = s
       \<and> stopRecording r s = s"
  using assms
  by (simp add: startRecording_def startRecording_fixed_id_def stopRecording_def)

theorem null_client_start_stop_unchanged_witness:
  "vapi initial_session = None
   \<and> startRecording \<lparr>VITE_VAPI_PUBLIC_KEY = Some ''pk'', VITE_VAPI_ASSISTANT_ID = Some ''asst''\<rparr>
       Returns initial_session = initial_session
   \<and> startRecording_fixed_id Returns initial_session = initial_session
   \<and> stopRecording Returns initial_session = initial_session"
proof -
  have h: "vapi initial_session = None"
    by (simp add: initial_session_def)
  show ?thesis
    using h null_client_start_stop_unchanged [OF h] by simp
qed

text \<open>
  C9. A successful \<^verbatim>\<open>startRecording\<close> (a client in the store, an assistant id in the
  environment, \<^verbatim>\<open>vapi.start\<close> resolves) sets \<^verbatim>\<open>isConnected\<close> to true, and after it every
  sequence of operations of the hook (starts and stops with any SDK behaviour, the
  initialising effect, SDK events) leaves \<^verbatim>\<open>isConnected\<close> true; \<^verbatim>\<open>stopRecording\<close> never
  changes \<^verbatim>\<open>isConnected\<close>, and where \<^verbatim>\<open>vapi.stop\<close> returns it clears \<^verbatim>\<open>isRecording\<close>.
\<close>

theorem connected_stays_true_after_start:
  assumes "vapi s \<noteq> None" and "\<not> falsy (VITE_VAPI_ASSISTANT_ID e)"
  shows "isConnected (startRecording e Returns s)
       \<and> isConnected (run_session e (startRecording e Returns s) ops)
       \<and> isConnected (stopRecording r (run_session e (startRecording e Returns s) ops))
       \<and> isConnected (stopRecording r s) = isConnected s
       \<and> \<not> isRecording (stopRecording Returns s)"
proof -
  from assms have c: "isConnected (startRecording e Returns s)"
    by (auto simp: startRecording_def Let_def)
  have keep: "isConnected (stopRecording r t) = isConnected t" for t
    by (simp add: stopRecording_def split: option.splits sdk_result.splits)
  from assms(1) have "\<not> isRecording (stopRecording Returns s)"
    by (auto simp: stopRecording_def)
  with c keep run_session_keeps_connected [OF c] show ?thesis
    by simp
qed

theorem connected_stays_true_after_start_witness:
  "vapi (initial_session\<lparr>vapi := Some (Vapi ''pk'')\<rparr>) \<noteq> None
   \<and> \<not> falsy (VITE_VAPI_ASSISTANT_ID
         \<lparr>VITE_VAPI_PUBLIC_KEY = Some ''pk'', VITE_VAPI_ASSISTANT_ID = Some ''asst''\<rparr>)
   \<and> isConnected
       (run_session \<lparr>VITE_VAPI_PUBLIC_KEY = Some ''pk'', VITE_VAPI_ASSISTANT_ID = Some ''asst''\<rparr>
          (startRecording
             \<lparr>VITE_VAPI_PUBLIC_KEY = Some ''pk'', VITE_VAPI_ASSISTANT_ID = Some ''asst''\<rparr>
             Returns (initial_session\<lparr>vapi := Some (Vapi ''pk'')\<rparr>))
          [Stop Returns, Start (Throws ''x''), Stop (Throws ''y'')])"
proof -
  let ?e = "\<lparr>VITE_VAPI_PUBLIC_KEY = Some ''pk'', VITE_VAPI_ASSISTANT_ID = Some ''asst''\<rparr>"
  let ?s = "initial_session\<lparr>vapi := Some (Vapi ''pk'')\<rparr>"
  have h1: "vapi ?s \<noteq> None" by simp
  have h2: "\<not> falsy (VITE_VAPI_ASSISTANT_ID ?e)" by simp
  show ?thesis
    using h1 h2
      connected_stays_true_after_start [OF h1 h2,
        of "[Stop Returns, Start (Throws ''x''), Stop (Throws ''y'')]" Returns]
    by simp
qed

text \<open>
  C10. Without a public key in the environment (absent, or empty, which \<^verbatim>\<open>!publicKey\<close>
  treats alike), \<^verbatim>\<open>initializeVapi\<close> only logs the error: no Vapi client is constructed and
  the store's \<^verbatim>\<open>vapi\<close> field keeps its value. So from the state at mount the field is null
  after the initialising effect and after any further operations, no SDK call has been
  made, the two cells are still false, and \<^verbatim>\<open>startRecording\<close> and \<^verbatim>\<open>stopRecording\<close> leave
  the state as it is.
\<close>

theorem no_public_key_no_client:
  assumes "falsy (VITE_VAPI_PUBLIC_KEY e)"
  shows "initializeVapi e s = s\<lparr>console := console s @ [''VAPI public key not found'']\<rparr>
       \<and> (let t = run_session e (initializeVapi e initial_session) ops in
            vapi t = None \<and> sdk_calls t = []
          \<and> \<not> isConnected t \<and> \<not> isRecording t
          \<and> startRecording e r t = t
          \<and> startRecording_fixed_id r t = t
          \<and> stopRecording r t = t)"
proof -
  from assms
  have init: "initializeVapi e s = s\<lparr>console := console s @ [''VAPI public key not found'']\<rparr>"
    for s
    by (simp add: initializeVapi_def)
  have null: "vapi (initializeVapi e initial_session) = None"
    by (simp add: init initial_session_def)
  let ?t = "run_session e (initializeVapi e initial_session) ops"
  from run_session_without_key [OF assms null, of ops]
  have t: "vapi ?t = None \<and> sdk_calls ?t = [] \<and> \<not> isConnected ?t \<and> \<not> isRecording ?t"
    by (simp add: init initial_session_def)
  then have "startRecording e r ?t = ?t \<and> startRecording_fixed_id r ?t = ?t
           \<and> stopRecording r ?t = ?t"
    by (simp add: startRecording_def startRecording_fixed_id_def stopRecording_def)
  with init t show ?thesis
    by (simp add: Let_def)
qed

theorem no_public_key_no_client_witness:
  "falsy (VITE_VAPI_PUBLIC_KEY
            \<lparr>VITE_VAPI_PUBLIC_KEY = None, VITE_VAPI_ASSISTANT_ID = Some ''asst''\<rparr>)
   \<and> vapi (run_session \<lparr>VITE_VAPI_PUBLIC_KEY = None, VITE_VAPI_ASSISTANT_ID = Some ''asst''\<rparr>
            (initializeVapi
               \<lparr>VITE_VAPI_PUBLIC_KEY = None, VITE_VAPI_ASSISTANT_ID = Some ''asst''\<rparr>
               initial_session)
            [Start Returns, Stop Returns, Initialize]) = None"
proof -
  let ?e = "\<lparr>VITE_VAPI_PUBLIC_KEY = None, VITE_VAPI_ASSISTANT_ID = Some ''asst''\<rparr>"
  have h: "falsy (VITE_VAPI_PUBLIC_KEY ?e)" by simp
  note t = no_public_key_no_client [OF h, of initial_session
      "[Start Returns, Stop Returns, Initialize]" Returns, unfolded Let_def]
  from h t show ?thesis by blast
qed

section \<open>Properties of the dispatch engine\<close>

subsection \<open>The tracker, one identifier at a time\<close>

text \<open>
  The tracker's operations touch one identifier at a time, so the state of an identifier
  after a run is the fold of \<open>settle\<close> (or \<open>admitted\<close>) over the events (or calls) that
  carry it.
\<close>

lemma states_apply_event:
  "states (apply_event tr e) j =
     (if j = event_identifier e then settle (states tr j) e else states tr j)"
  by (cases e rule: outcome_of_event.cases)
     (auto simp: transition_def split: option.splits call_state.splits)

lemma states_register:
  "states (register tr i d) j =
     (if j = i then (case states tr i of None \<Rightarrow> Some (Pending d) | Some st \<Rightarrow> Some st)
      else states tr j)"
  by (simp add: register_def split: option.splits)

lemma states_admit:
  "states (admit T reg cred tr c) j =
     (if j = call_identifier c then admitted T reg cred (states tr j) c else states tr j)"
  by (simp add: admit_def admitted_def Let_def states_apply_event states_register
        split: plan.splits)

lemma states_foldl_apply_event:
  "states (foldl apply_event tr evs) i =
     foldl settle (states tr i) (filter (\<lambda>e. event_identifier e = i) evs)"
  by (induction evs arbitrary: tr) (simp_all add: states_apply_event)

lemma states_foldl_admit:
  "states (foldl (admit T reg cred) tr cs) i =
     foldl (admitted T reg cred) (states tr i) (filter (\<lambda>c. call_identifier c = i) cs)"
  by (induction cs arbitrary: tr) (simp_all add: states_admit)

lemma foldl_settle_terminal:
  "foldl settle (Some (Terminal out)) es = Some (Terminal out)"
  by (induction es) simp_all

lemma outcome_of_event_identifier [simp]:
  "outcome_identifier (outcome_of_event e) = event_identifier e"
  by (cases e rule: outcome_of_event.cases) simp_all

lemma settle_ok:
  "state_ok i s \<Longrightarrow> event_identifier e = i \<Longrightarrow> state_ok i (settle s e)"
  by (cases "(s, e)" rule: settle.cases) (simp_all add: state_ok_def)

lemma admitted_ok:
  assumes "call_identifier c = i" and "s = None \<or> state_ok i s"
  shows "state_ok i (admitted T reg cred s c)"
proof -
  define s' where "s' = (case s of None \<Rightarrow> Some (Pending T) | Some st \<Rightarrow> Some st)"
  have ok: "state_ok i s'"
    using assms(2) by (auto simp: s'_def state_ok_def split: option.splits)
  show ?thesis
  proof (cases "plan_call reg cred c")
    case (Immediate r)
    then show ?thesis
      using settle_ok [OF ok, of "Resolved i r"] assms(1)
      by (simp add: admitted_def s'_def)
  next
    case (Invoke h k)
    then show ?thesis
      using ok by (simp add: admitted_def s'_def)
  qed
qed

lemma foldl_admitted_ok:
  "state_ok i s \<Longrightarrow> \<forall>c\<in>set cs. call_identifier c = i
   \<Longrightarrow> state_ok i (foldl (admitted T reg cred) s cs)"
  by (induction cs arbitrary: s) (simp_all add: admitted_ok)

lemma foldl_admitted_tracked:
  assumes "cs \<noteq> []" and "\<forall>c\<in>set cs. call_identifier c = i"
  shows "state_ok i (foldl (admitted T reg cred) None cs)"
proof (cases cs)
  case Nil
  with assms(1) show ?thesis by simp
next
  case (Cons c rest)
  with assms(2) have "state_ok i (admitted T reg cred None c)"
    by (simp add: admitted_ok)
  with Cons assms(2) show ?thesis
    by (simp add: foldl_admitted_ok)
qed

lemma settled_is_terminal:
  assumes "state_ok i s" and "es \<noteq> []" and "\<forall>e\<in>set es. event_identifier e = i"
  shows "\<exists>out. foldl settle s es = Some (Terminal out) \<and> outcome_identifier out = i"
proof (cases es)
  case Nil
  with assms(2) show ?thesis by simp
next
  case (Cons e rest)
  show ?thesis
  proof (cases s)
    case None
    with assms(1) show ?thesis by (simp add: state_ok_def)
  next
    case (Some st)
    with assms(1,3) Cons show ?thesis
      by (cases st) (simp_all add: state_ok_def foldl_settle_terminal)
  qed
qed

text \<open>
  Every call of a batch ends in a terminal state: it is tracked once dispatched, and its
  deadline is among the scheduled events.
\<close>

lemma set_schedule: "set (schedule timed) = snd ` set timed"
  by (simp add: schedule_def)

lemma map_filter_total:
  "\<forall>x\<in>set xs. \<exists>y. f x = Some y \<and> g y = h x
   \<Longrightarrow> map g (List.map_filter f xs) = map h xs"
  by (induction xs) (auto simp: List.map_filter_simps)

lemma deadline_scheduled:
  assumes "c \<in> set cs"
  shows "DeadlineElapsed (call_identifier c)
           \<in> set (schedule (concat (map (call_events T reg w sid cred) cs)))"
proof -
  have "(T, DeadlineElapsed (call_identifier c)) \<in> set (call_events T reg w sid cred c)"
    by (simp add: call_events_def)
  with assms have "(T, DeadlineElapsed (call_identifier c))
      \<in> set (concat (map (call_events T reg w sid cred) cs))"
    by auto
  then show ?thesis
    unfolding set_schedule by force
qed

lemma every_call_recorded:
  assumes "c \<in> set cs"
  shows "\<exists>out. recorded_outcome
                 (foldl apply_event (foldl (admit T reg cred) empty_tracker cs)
                    (schedule (concat (map (call_events T reg w sid cred) cs)))) c = Some out
                \<and> outcome_identifier out = call_identifier c"
proof -
  let ?i = "call_identifier c"
  let ?mine = "filter (\<lambda>c'. call_identifier c' = ?i) cs"
  let ?evs = "filter (\<lambda>e. event_identifier e = ?i)
                (schedule (concat (map (call_events T reg w sid cred) cs)))"
  from assms(1) have "?mine \<noteq> []"
    by (auto simp: filter_empty_conv)
  then have ok: "state_ok ?i (foldl (admitted T reg cred) None ?mine)"
    by (rule foldl_admitted_tracked) simp
  have "DeadlineElapsed ?i \<in> set (schedule (concat (map (call_events T reg w sid cred) cs)))"
    by (rule deadline_scheduled [OF assms(1)])
  then have "DeadlineElapsed ?i \<in> set ?evs"
    by simp
  then have "?evs \<noteq> []"
    by (cases ?evs) simp_all
  from settled_is_terminal [OF ok this]
  obtain out where "foldl settle (foldl (admitted T reg cred) None ?mine) ?evs = Some (Terminal out)"
    and "outcome_identifier out = ?i"
    by auto
  then show ?thesis
    by (simp add: recorded_outcome_def states_foldl_apply_event states_foldl_admit
          empty_tracker_def)
qed

lemma outcomes_dispatch:
  "outcomes (dispatch T reg w b) =
     List.map_filter
       (recorded_outcome
          (foldl apply_event
             (foldl (admit T reg (snd (resolve_credential w (session_id b)))) empty_tracker (calls b))
             (schedule (concat (map (call_events T reg w (session_id b)
                 (snd (resolve_credential w (session_id b)))) (calls b))))))
       (calls b)"
  by (simp add: dispatch_def Let_def split: prod.splits)

lemma dispatch_identifiers:
  "map outcome_identifier (outcomes (dispatch T reg w b)) = map call_identifier (calls b)"
  unfolding outcomes_dispatch
  by (rule map_filter_total) (simp add: every_call_recorded)


text \<open>
  With distinct identifiers the events of an identifier are those of its one call, and the
  recorded outcome is \<open>call_outcome\<close> of that call.
\<close>

lemma filter_same_identifier:
  "distinct (map call_identifier cs) \<Longrightarrow> c \<in> set cs
   \<Longrightarrow> filter (\<lambda>c'. call_identifier c' = call_identifier c) cs = [c]"
proof (induction cs)
  case Nil
  then show ?case by simp
next
  case (Cons a cs)
  show ?case
  proof (cases "a = c")
    case True
    with Cons.prems(1) have "call_identifier c \<notin> call_identifier ` set cs"
      by simp
    then have "\<forall>c'\<in>set cs. call_identifier c' \<noteq> call_identifier c"
      by (metis imageI)
    then have "filter (\<lambda>c'. call_identifier c' = call_identifier c) cs = []"
      by (simp add: filter_empty_conv)
    with True show ?thesis by simp
  next
    case False
    with Cons.prems have in_cs: "c \<in> set cs" and d: "distinct (map call_identifier cs)"
      and "call_identifier a \<noteq> call_identifier c"
      by auto
    with Cons.IH show ?thesis by simp
  qed
qed

lemma call_events_identifier:
  "te \<in> set (call_events T reg w sid cred c) \<Longrightarrow> event_identifier (snd te) = call_identifier c"
  by (auto simp: call_events_def split: plan.splits option.splits)

lemma filter_call_events:
  "filter (\<lambda>te. event_identifier (snd te) = i) (call_events T reg w sid cred c) =
     (if call_identifier c = i then call_events T reg w sid cred c else [])"
  by (auto simp: filter_empty_conv call_events_identifier filter_id_conv)

lemma filter_batch_events:
  "filter (\<lambda>te. event_identifier (snd te) = i) (concat (map (call_events T reg w sid cred) cs)) =
     concat (map (call_events T reg w sid cred) (filter (\<lambda>c. call_identifier c = i) cs))"
  by (induction cs) (simp_all add: filter_call_events)

lemma filter_schedule:
  "filter P (schedule timed) = schedule (filter (\<lambda>te. P (snd te)) timed)"
  by (simp add: schedule_def filter_map filter_sort comp_def)

lemma schedule_call_events:
  "schedule (call_events T reg w sid cred c) =
     (case plan_call reg cred c of
        Immediate r \<Rightarrow> [DeadlineElapsed (call_identifier c)]
      | Invoke h k \<Rightarrow>
          (case completes_after w c of
             None \<Rightarrow> [DeadlineElapsed (call_identifier c)]
           | Some t \<Rightarrow>
               if t < T
               then [Resolved (call_identifier c) (snd (execute h w sid k (arguments c))),
                     DeadlineElapsed (call_identifier c)]
               else [DeadlineElapsed (call_identifier c),
                     Resolved (call_identifier c) (snd (execute h w sid k (arguments c)))]))"
  by (auto simp: schedule_def call_events_def split: plan.splits option.splits)

lemma single_call_settles:
  "foldl settle (admitted T reg cred None c) (schedule (call_events T reg w sid cred c)) =
     Some (Terminal (call_outcome T reg w sid cred c))"
  by (auto simp: schedule_call_events admitted_def call_outcome_def foldl_settle_terminal
        split: plan.splits option.splits)

lemma recorded_call_outcome:
  assumes "distinct (map call_identifier cs)" and "c \<in> set cs"
  shows "recorded_outcome
           (foldl apply_event (foldl (admit T reg cred) empty_tracker cs)
              (schedule (concat (map (call_events T reg w sid cred) cs)))) c =
         Some (call_outcome T reg w sid cred c)"
proof -
  have mine: "filter (\<lambda>c'. call_identifier c' = call_identifier c) cs = [c]"
    using assms by (rule filter_same_identifier)
  show ?thesis
    by (simp add: recorded_outcome_def states_foldl_apply_event states_foldl_admit
          empty_tracker_def filter_schedule filter_batch_events mine single_call_settles)
qed

lemma map_filter_all_some:
  "\<forall>x\<in>set xs. f x = Some (g x) \<Longrightarrow> List.map_filter f xs = map g xs"
  by (induction xs) (simp_all add: List.map_filter_simps)

lemma dispatch_outcomes:
  assumes "distinct (map call_identifier (calls b))"
  shows "outcomes (dispatch T reg w b) =
           map (call_outcome T reg w (session_id b) (snd (resolve_credential w (session_id b))))
             (calls b)"
  unfolding outcomes_dispatch
  by (rule map_filter_all_some) (simp add: recorded_call_outcome [OF assms])

lemma call_outcome_identifier:
  "outcome_identifier (call_outcome T reg w sid cred c) = call_identifier c"
  by (simp add: call_outcome_def split: plan.splits option.splits)

lemma find_in_distinct_map:
  assumes "distinct (map f xs)" and "x \<in> set xs" and "\<And>y. g (h y) = f y"
  shows "find (\<lambda>out. g out = f x) (map h xs) = Some (h x)"
  using assms(1,2)
proof (induction xs)
  case Nil
  then show ?case by simp
next
  case (Cons a xs)
  then show ?case
    by (cases "a = x") (auto simp: assms(3))
qed

lemma outcome_for_dispatch:
  assumes "distinct (map call_identifier (calls b))" and "c \<in> set (calls b)"
  shows "outcome_for (dispatch T reg w b) (call_identifier c) =
           Some (call_outcome T reg w (session_id b) (snd (resolve_credential w (session_id b))) c)"
  unfolding outcome_for_def dispatch_outcomes [OF assms(1)]
  by (rule find_in_distinct_map [OF assms]) (rule call_outcome_identifier)


subsection \<open>The response of a batch and the finality of outcomes\<close>

lemmas example_defs = example_batch_def quick_delete_def unknown_call_def
  delete_without_id_def slow_delete_def

text \<open>
  C1. For every batch of N tool calls the aggregated response of the orchestrator holds
  exactly N outcomes, and their identifiers are those of the batch, call by call: the
  same multiset, whichever calls succeed, fail, time out or never resolve. When the
  identifiers of the batch are distinct, as the data model requires, those of the
  response are distinct too, and each identifier of the batch occurs exactly once.
\<close>

theorem batch_outcomes_cover_identifiers:
  "length (outcomes (dispatch T reg w b)) = length (calls b)
   \<and> map outcome_identifier (outcomes (dispatch T reg w b)) = map call_identifier (calls b)
   \<and> mset (map outcome_identifier (outcomes (dispatch T reg w b)))
       = mset (map call_identifier (calls b))
   \<and> (distinct (map call_identifier (calls b)) \<longrightarrow>
        distinct (map outcome_identifier (outcomes (dispatch T reg w b)))
      \<and> (\<forall>i \<in> set (map call_identifier (calls b)).
            count (mset (map outcome_identifier (outcomes (dispatch T reg w b)))) i = 1))"
proof -
  have ids: "map outcome_identifier (outcomes (dispatch T reg w b)) = map call_identifier (calls b)"
    by (rule dispatch_identifiers)
  then have "length (map outcome_identifier (outcomes (dispatch T reg w b)))
      = length (map call_identifier (calls b))"
    by simp
  then have len: "length (outcomes (dispatch T reg w b)) = length (calls b)"
    by simp
  have once: "\<forall>i \<in> set (map call_identifier (calls b)).
      count (mset (map call_identifier (calls b))) i = 1"
    if "distinct (map call_identifier (calls b))"
    using that by (simp add: distinct_count_atmost_1)
  from ids len once show ?thesis
    by simp
qed

theorem batch_outcomes_cover_identifiers_witness:
  "distinct (map call_identifier (calls example_batch))
   \<and> length (outcomes (dispatch 5 example_registry example_world example_batch)) = 4
   \<and> distinct (map outcome_identifier
        (outcomes (dispatch 5 example_registry example_world example_batch)))
   \<and> count (mset (map outcome_identifier
        (outcomes (dispatch 5 example_registry example_world example_batch)))) ''slow'' = 1"
proof -
  have h: "distinct (map call_identifier (calls example_batch))"
    by (simp add: example_defs)
  have m: "''slow'' \<in> set (map call_identifier (calls example_batch))"
    by (simp add: example_defs)
  from batch_outcomes_cover_identifiers [of 5 example_registry example_world example_batch] h
  have "length (outcomes (dispatch 5 example_registry example_world example_batch))
          = length (calls example_batch)"
    and "distinct (map outcome_identifier
          (outcomes (dispatch 5 example_registry example_world example_batch)))"
    and "\<forall>i \<in> set (map call_identifier (calls example_batch)).
          count (mset (map outcome_identifier
            (outcomes (dispatch 5 example_registry example_world example_batch)))) i = 1"
    by blast+
  with h m show ?thesis
    by (simp add: example_defs)
qed

text \<open>A terminal state is left alone by every operation of the tracker.\<close>

lemma states_tracker_step_terminal:
  "states tr i = Some (Terminal out) \<Longrightarrow> states (tracker_step tr x) i = Some (Terminal out)"
  by (cases x) (auto simp: states_register states_apply_event)

lemma states_run_terminal:
  "states tr i = Some (Terminal out)
   \<Longrightarrow> states (foldl tracker_step tr ops) i = Some (Terminal out)"
  by (induction ops arbitrary: tr) (simp_all add: states_tracker_step_terminal)

lemma rejected_when_terminal:
  "states tr i = Some (Terminal out) \<Longrightarrow> event_identifier e = i
   \<Longrightarrow> apply_event tr e = tr\<lparr>violations := violations tr @ [i]\<rparr>"
  by (cases e rule: outcome_of_event.cases) (simp_all add: transition_def)

text \<open>
  C2. The tracker records at most one terminal transition per identifier. Once the state
  of an identifier is terminal, no sequence of tracker operations (deliveries of results
  or deadlines, registrations) changes it, and every further transition attempted for it
  is rejected: the states are left as they are and the identifier is logged as an
  invariant violation. In particular, when the deadline of a Pending call elapses, the
  call is TimedOut and stays so when a handler result for it arrives afterwards; and in a
  batch, a call whose handler resolves at or after the deadline has the outcome TimedOut
  in the response.
\<close>

theorem terminal_outcome_is_final:
  "(states tr i = Some (Terminal out) \<longrightarrow>
      states (foldl tracker_step tr ops) i = Some (Terminal out))
   \<and> (states tr i = Some (Terminal out) \<and> event_identifier e = i \<longrightarrow>
        apply_event tr e = tr\<lparr>violations := violations tr @ [i]\<rparr>)
   \<and> (states tr' j = Some (Pending deadline) \<longrightarrow>
        states (foldl tracker_step tr'
                  (Deliver (DeadlineElapsed j) # Deliver (Resolved j r) # ops')) j
          = Some (Terminal \<lparr>outcome_identifier = j, outcome_status = TimedOut,
               outcome_payload = Failure Timeout ''That took too long, please try again''\<rparr>))
   \<and> (distinct (map call_identifier (calls b)) \<and> c \<in> set (calls b)
        \<and> invokes reg (snd (resolve_credential w (session_id b))) c
        \<and> completes_after w c = Some t \<and> T \<le> t \<longrightarrow>
        outcome_for (dispatch T reg w b) (call_identifier c)
          = Some \<lparr>outcome_identifier = call_identifier c, outcome_status = TimedOut,
               outcome_payload = Failure Timeout ''That took too long, please try again''\<rparr>)"
proof -
  have late: "states (foldl tracker_step tr'
                  (Deliver (DeadlineElapsed j) # Deliver (Resolved j r) # ops')) j
          = Some (Terminal \<lparr>outcome_identifier = j, outcome_status = TimedOut,
               outcome_payload = Failure Timeout ''That took too long, please try again''\<rparr>)"
    if "states tr' j = Some (Pending deadline)"
  proof -
    from that have "states (apply_event tr' (DeadlineElapsed j)) j
        = Some (Terminal (outcome_of_event (DeadlineElapsed j)))"
      by (simp add: transition_def)
    then have "states (foldl tracker_step (apply_event tr' (DeadlineElapsed j))
        (Deliver (Resolved j r) # ops')) j = Some (Terminal (outcome_of_event (DeadlineElapsed j)))"
      by (rule states_run_terminal)
    then show ?thesis by simp
  qed
  have batch: "outcome_for (dispatch T reg w b) (call_identifier c)
          = Some \<lparr>outcome_identifier = call_identifier c, outcome_status = TimedOut,
               outcome_payload = Failure Timeout ''That took too long, please try again''\<rparr>"
    if "distinct (map call_identifier (calls b))" and "c \<in> set (calls b)"
      and "invokes reg (snd (resolve_credential w (session_id b))) c"
      and "completes_after w c = Some t" and "T \<le> t"
    using that(3-5) unfolding outcome_for_dispatch [OF that(1,2)]
    by (simp add: call_outcome_def invokes_def split: plan.splits)
  from late batch show ?thesis
    by (simp add: states_run_terminal rejected_when_terminal)
qed

theorem terminal_outcome_is_final_witness:
  "states (apply_event (register empty_tracker ''slow'' 5) (DeadlineElapsed ''slow'')) ''slow''
     = Some (Terminal \<lparr>outcome_identifier = ''slow'', outcome_status = TimedOut,
          outcome_payload = Failure Timeout ''That took too long, please try again''\<rparr>)
   \<and> states (register empty_tracker ''slow'' 5) ''slow'' = Some (Pending 5)
   \<and> distinct (map call_identifier (calls example_batch))
   \<and> slow_delete \<in> set (calls example_batch)
   \<and> invokes example_registry (snd (resolve_credential example_world (session_id example_batch)))
        slow_delete
   \<and> completes_after example_world slow_delete = Some 9
   \<and> states (foldl tracker_step
        (apply_event (register empty_tracker ''slow'' 5) (DeadlineElapsed ''slow''))
        [Deliver (Resolved ''slow'' (Done ''I deleted the event'' None)), Register ''slow'' 7]) ''slow''
     = Some (Terminal \<lparr>outcome_identifier = ''slow'', outcome_status = TimedOut,
          outcome_payload = Failure Timeout ''That took too long, please try again''\<rparr>)
   \<and> outcome_for (dispatch 5 example_registry example_world example_batch) ''slow''
     = Some \<lparr>outcome_identifier = ''slow'', outcome_status = TimedOut,
          outcome_payload = Failure Timeout ''That took too long, please try again''\<rparr>"
proof -
  let ?late = "apply_event (register empty_tracker ''slow'' 5) (DeadlineElapsed ''slow'')"
  let ?out = "\<lparr>outcome_identifier = ''slow'', outcome_status = TimedOut,
          outcome_payload = Failure Timeout ''That took too long, please try again''\<rparr>"
  have h1: "states ?late ''slow'' = Some (Terminal ?out)"
    by (simp add: register_def transition_def empty_tracker_def)
  have h2: "states (register empty_tracker ''slow'' 5) ''slow'' = Some (Pending 5)"
    by (simp add: register_def empty_tracker_def)
  have h3: "distinct (map call_identifier (calls example_batch))"
    and h4: "slow_delete \<in> set (calls example_batch)"
    by (simp_all add: example_defs)
  have h5: "invokes example_registry
      (snd (resolve_credential example_world (session_id example_batch))) slow_delete"
    by (simp add: invokes_def plan_call_def example_registry_def delete_handler_def
          resolve_credential_def example_world_def example_defs)
  have h6: "completes_after example_world slow_delete = Some 9"
    by (simp add: example_world_def slow_delete_def)
  have h7: "call_identifier slow_delete = ''slow''"
    by (simp add: slow_delete_def)
  note t = terminal_outcome_is_final [of ?late "''slow''" ?out
      "[Deliver (Resolved ''slow'' (Done ''I deleted the event'' None)), Register ''slow'' 7]"
      "Resolved ''slow'' (Done ''I deleted the event'' None)"
      "register empty_tracker ''slow'' 5" "''slow''" 5
      "Done ''I deleted the event'' None" "[]"
      example_batch slow_delete example_registry example_world 9 5]
  from t h1 have a: "states (foldl tracker_step ?late
        [Deliver (Resolved ''slow'' (Done ''I deleted the event'' None)), Register ''slow'' 7])
        ''slow'' = Some (Terminal ?out)"
    by blast
  from t h3 h4 h5 h6 have b: "outcome_for (dispatch 5 example_registry example_world example_batch)
        (call_identifier slow_delete) = Some \<lparr>outcome_identifier = call_identifier slow_delete,
          outcome_status = TimedOut,
          outcome_payload = Failure Timeout ''That took too long, please try again''\<rparr>"
    by simp
  from h1 h2 h3 h4 h5 h6 a b [unfolded h7] show ?thesis
    by blast
qed

end
